theory Spec2Isabelle
  imports Main "HOL-Library.AList"
begin

section \<open>JavaScript values and objects\<close>

text \<open>
  The values the middleware handles. A request header value has the type
  \<^verbatim>\<open>string | string[] | undefined\<close>. An object with string keys is the list of its
  entries, as \<^verbatim>\<open>Object.entries\<close> returns them; the assignment \<^verbatim>\<open>o[k] = v\<close> of an own
  property is \<^const>\<open>AList.update\<close>, which overwrites the entry of an existing key in place
  and appends a new key at the end. Header names are HTTP tokens, so strings are ASCII.
\<close>

datatype jsval = Undefined | Str string | Arr "string list"

type_synonym 'v obj = "(string \<times> 'v) list"

text \<open>The property read \<^verbatim>\<open>o[k]\<close>: \<^verbatim>\<open>undefined\<close> for a key the object does not own.\<close>

definition getProp :: "jsval obj \<Rightarrow> string \<Rightarrow> jsval" where
  "getProp ob k = (case map_of ob k of None \<Rightarrow> Undefined | Some v \<Rightarrow> v)"

text \<open>
  Truthiness, as \<^verbatim>\<open>||\<close> and \<^verbatim>\<open>?:\<close> test it: \<^verbatim>\<open>undefined\<close> and the empty string
  are falsy, every array (the empty one too) is truthy.
\<close>

fun truthy :: "jsval \<Rightarrow> bool" where
  "truthy Undefined = False"
| "truthy (Str s) = (s \<noteq> [])"
| "truthy (Arr vs) = True"

text \<open>\<^verbatim>\<open>String.prototype.toLowerCase\<close> on ASCII text.\<close>

definition lowerChar :: "char \<Rightarrow> char" where
  "lowerChar c =
     (case map_of (zip ''ABCDEFGHIJKLMNOPQRSTUVWXYZ'' ''abcdefghijklmnopqrstuvwxyz'') c of
        Some l \<Rightarrow> l
      | None \<Rightarrow> c)"

definition toLowerCase :: "string \<Rightarrow> string" where
  "toLowerCase s = map lowerChar s"

text \<open>\<^verbatim>\<open>Array.prototype.join\<close> on an array of strings.\<close>

fun join :: "string \<Rightarrow> string list \<Rightarrow> string" where
  "join sep [] = []"
| "join sep [x] = x"
| "join sep (x # y # ys) = x @ sep @ join sep (y # ys)"

text \<open>\<^verbatim>\<open>String.prototype.substring(n)\<close> with one argument.\<close>

definition substring :: "nat \<Rightarrow> string \<Rightarrow> string" where
  "substring n s = drop n s"

text \<open>The digits that \<^verbatim>\<open>Number.prototype.toString(36)\<close> writes.\<close>

definition isBase36 :: "string \<Rightarrow> bool" where
  "isBase36 s = list_all (\<lambda>c. c \<in> set ''0123456789abcdefghijklmnopqrstuvwxyz'') s"

text \<open>The decimal text of an integer, as a template literal prints a number.\<close>

definition digitChar :: "nat \<Rightarrow> char" where
  "digitChar d = ''0123456789'' ! d"

fun showNat :: "nat \<Rightarrow> string" where
  "showNat n = (if n < 10 then [digitChar n] else showNat (n div 10) @ [digitChar (n mod 10)])"

declare showNat.simps [simp del]

definition showInt :: "int \<Rightarrow> string" where
  "showInt i = (if i < 0 then CHR ''-'' # showNat (nat (- i)) else showNat (nat i))"

section \<open>The request\<close>

text \<open>The fields of the Express request that the middleware reads.\<close>

record request =
  reqMethod :: string
  url :: string
  path :: string
  query :: "string obj"
  headers :: "jsval obj"
  ip :: jsval
  remoteAddress :: jsval

section \<open>Header filter\<close>

definition sensitiveHeaders :: "string list" where
  "sensitiveHeaders = [''authorization'', ''cookie'', ''set-cookie'']"

text \<open>
  The body of the loop of \<^verbatim>\<open>getFilteredHeaders\<close>: the value stored under \<^verbatim>\<open>key\<close>.
  \<^verbatim>\<open>value || ''\<close> is the value itself when it is truthy and the empty string otherwise.
\<close>

definition filteredValue :: "string \<Rightarrow> jsval \<Rightarrow> string" where
  "filteredValue key v =
     (if toLowerCase key \<in> set sensitiveHeaders then ''[REDACTED]''
      else (case v of
              Arr vs \<Rightarrow> join '', '' vs
            | Str s \<Rightarrow> (if truthy (Str s) then s else [])
            | Undefined \<Rightarrow> []))"

text \<open>
  The assignment \<^verbatim>\<open>headers[key] = value\<close> on the object that \<^verbatim>\<open>{}\<close> created, with a string
  as value. The name \<^verbatim>\<open>__proto__\<close> is an accessor of \<^verbatim>\<open>Object.prototype\<close>, whose setter
  ignores a value that is neither an object nor \<^verbatim>\<open>null\<close>: assigning under it adds no
  property. Under any other name the assignment overwrites or adds an own property.
\<close>

definition assign :: "string \<Rightarrow> string \<Rightarrow> string obj \<Rightarrow> string obj" where
  "assign key v hs = (if key = ''__proto__'' then hs else AList.update key v hs)"

fun filterEntries :: "jsval obj \<Rightarrow> string obj \<Rightarrow> string obj" where
  "filterEntries [] hs = hs"
| "filterEntries ((key, v) # rest) hs =
     filterEntries rest (assign key (filteredValue key v) hs)"

definition getFilteredHeaders :: "request \<Rightarrow> string obj" where
  "getFilteredHeaders req = filterEntries (headers req) []"

text \<open>
  A filtered header set read as the header set of a request again: every value is a
  single string.
\<close>

definition asHeaders :: "string obj \<Rightarrow> jsval obj" where
  "asHeaders hs = map (\<lambda>(k, v). (k, Str v)) hs"

text \<open>In a filtered set, every entry under a sensitive name holds the marker.\<close>

definition redacted :: "string obj \<Rightarrow> bool" where
  "redacted hs = list_all (\<lambda>(k, v). toLowerCase k \<in> set sensitiveHeaders \<longrightarrow> v = ''[REDACTED]'') hs"

section \<open>Failures\<close>

text \<open>
  The failure object \<^verbatim>\<open>err\<close> handed to \<^verbatim>\<open>errorHandler\<close>: the properties the handler
  reads. \<^const>\<open>None\<close> is a property that is absent (\<^verbatim>\<open>undefined\<close>); \<open>isError\<close> is
  \<^verbatim>\<open>err instanceof Error\<close>.
\<close>

record failure =
  err_status :: "int option"
  err_statusCode :: "int option"
  err_message :: "string option"
  err_name :: "string option"
  err_stack :: "string option"
  isError :: bool

text \<open>
  What a call can throw: the error of Node's \<^verbatim>\<open>setHeader\<close> on a response whose headers
  are sent already, the \<^verbatim>\<open>RangeError\<close> for a status code that is refused, or a failure
  object of the caller's own.
\<close>

datatype js_error = ERR_HTTP_HEADERS_SENT | ERR_INVALID_STATUS_CODE | Thrown failure

text \<open>\<^verbatim>\<open>a || b\<close> on a number and on a string: zero and the empty string are falsy.\<close>

definition orNum :: "int option \<Rightarrow> int \<Rightarrow> int" where
  "orNum a b = (case a of None \<Rightarrow> b | Some n \<Rightarrow> (if n \<noteq> 0 then n else b))"

definition orStr :: "string option \<Rightarrow> string \<Rightarrow> string" where
  "orStr a b = (case a of None \<Rightarrow> b | Some s \<Rightarrow> (if s \<noteq> [] then s else b))"

definition orVal :: "jsval \<Rightarrow> jsval \<Rightarrow> jsval" where
  "orVal a b = (if truthy a then a else b)"

section \<open>The error envelope\<close>

record error_details =
  name :: "string option"
  stack :: "string option"

record error_body =
  code :: int
  message :: string
  details :: "error_details option"

record error_response =
  error :: error_body
  success :: bool
  timestamp :: string
  envPath :: string

section \<open>The logger\<close>

text \<open>
  A call of \<^verbatim>\<open>logger.debug\<close>, \<^verbatim>\<open>logger.info\<close>, \<^verbatim>\<open>logger.warn\<close> or \<^verbatim>\<open>logger.error\<close>
  is recorded as a log event with its structured payload and its message; the world
  keeps the events in the order of the calls.
\<close>

datatype level = LevelDebug | LevelInfo | LevelWarn | LevelError

datatype logged_error = ErrorObject failure | StringOf failure

datatype payload =
    RequestLog jsval string string string "string obj" "string obj" jsval
      \<comment> \<open>type 'request': requestId, method, url, path, query, headers, remoteAddress\<close>
  | ResponseLog jsval string string string int int
      \<comment> \<open>type 'response': requestId, method, url, path, status, responseTime\<close>
  | ErrorLog logged_error "string option" string string string
      \<comment> \<open>error, stack, path, method, url\<close>

record log_event =
  level :: level
  payload :: payload
  logMessage :: string

section \<open>The response and the world\<close>

text \<open>
  \<^verbatim>\<open>res.end\<close> is a property of the response object that \<^verbatim>\<open>requestLogger\<close>
  replaces: its value is either Node's own function or the logging function, a closure
  over \<^verbatim>\<open>requestId\<close>, \<^verbatim>\<open>startTime\<close>, \<^verbatim>\<open>req\<close> and \<^verbatim>\<open>originalEnd\<close>.
\<close>

datatype end_fn = NativeEnd | LoggingEnd jsval int request end_fn

datatype body = Text string | Json error_response

record response =
  statusCode :: int
  resHeaders :: "jsval obj"
  finished :: bool
  sentBody :: "body option"
  endFn :: end_fn

record world =
  res :: response
  logged :: "log_event list"
  nextCalls :: "js_error option list"

definition emit :: "level \<Rightarrow> payload \<Rightarrow> string \<Rightarrow> world \<Rightarrow> world" where
  "emit l p m w = w\<lparr>logged := logged w @ [\<lparr>level = l, payload = p, logMessage = m\<rparr>]\<rparr>"

text \<open>\<^verbatim>\<open>next()\<close> is \<open>callNext None\<close> and \<^verbatim>\<open>next(error)\<close> is \<open>callNext (Some error)\<close>.\<close>

definition callNext :: "js_error option \<Rightarrow> world \<Rightarrow> world" where
  "callNext arg w = w\<lparr>nextCalls := nextCalls w @ [arg]\<rparr>"

text \<open>
  Node's and Express's methods of the response. \<^verbatim>\<open>setHeader\<close> stores a header under its
  lower-cased name, in an object without prototype where every name is an own property,
  and throws once the headers are sent; Node's \<^verbatim>\<open>end\<close> finishes the
  response with the chunk it is given, and does nothing on a response that is finished.

  \<^verbatim>\<open>res.status\<close> assigns \<^verbatim>\<open>statusCode\<close>. Express 5 first refuses a code outside 100..999
  with a \<^verbatim>\<open>RangeError\<close>, Express 4 assigns any code: \<open>strict\<close> says which of the two the
  server runs on, and every statement below holds for both.
\<close>

definition setHeader :: "string \<Rightarrow> jsval \<Rightarrow> response \<Rightarrow> js_error + response" where
  "setHeader nm v r =
     (if finished r then Inl ERR_HTTP_HEADERS_SENT
      else Inr (r\<lparr>resHeaders := AList.update (toLowerCase nm) v (resHeaders r)\<rparr>))"

definition getHeader :: "string \<Rightarrow> response \<Rightarrow> jsval" where
  "getHeader nm r = getProp (resHeaders r) (toLowerCase nm)"

definition status :: "bool \<Rightarrow> int \<Rightarrow> response \<Rightarrow> js_error + response" where
  "status strict c r =
     (if strict \<and> (c < 100 \<or> 999 < c) then Inl ERR_INVALID_STATUS_CODE
      else Inr (r\<lparr>statusCode := c\<rparr>))"

definition nativeEnd :: "body option \<Rightarrow> response \<Rightarrow> response" where
  "nativeEnd chunk r =
     (if finished r then r
      else r\<lparr>finished := True,
             sentBody := (case chunk of None \<Rightarrow> sentBody r | Some c \<Rightarrow> Some c)\<rparr>)"

section \<open>Request logger\<close>

text \<open>
  The severity and the message of the event that the replaced \<^verbatim>\<open>res.end\<close> logs.
\<close>

definition responseMessage :: "int \<Rightarrow> int \<Rightarrow> string" where
  "responseMessage sc responseTime =
     ''Response sent: '' @ showInt sc @ '' ('' @ showInt responseTime @ ''ms)''"

definition responseLevel :: "int \<Rightarrow> level" where
  "responseLevel sc =
     (if sc \<ge> 500 then LevelError else if sc \<ge> 400 then LevelWarn else LevelInfo)"

text \<open>
  Calling the function stored in \<^verbatim>\<open>res.end\<close> at the time \<open>now\<close> (the value of
  \<^verbatim>\<open>Date.now()\<close>). The logging function logs on every call and then applies
  \<^verbatim>\<open>originalEnd\<close> to the same arguments.
\<close>

fun callEnd :: "end_fn \<Rightarrow> int \<Rightarrow> body option \<Rightarrow> world \<Rightarrow> world" where
  "callEnd NativeEnd now chunk w = w\<lparr>res := nativeEnd chunk (res w)\<rparr>"
| "callEnd (LoggingEnd requestId startTime req originalEnd) now chunk w =
     (let responseTime = now - startTime;
          logData = ResponseLog requestId (reqMethod req) (url req) (path req)
                      (statusCode (res w)) responseTime;
          msg = responseMessage (statusCode (res w)) responseTime
      in callEnd originalEnd now chunk (emit (responseLevel (statusCode (res w))) logData msg w))"

definition res_end :: "int \<Rightarrow> body option \<Rightarrow> world \<Rightarrow> world" where
  "res_end now chunk w = callEnd (endFn (res w)) now chunk w"

text \<open>
  \<open>startTime\<close> is the value of \<^verbatim>\<open>Date.now()\<close> on entry and \<open>rnd\<close> the text of
  \<^verbatim>\<open>Math.random().toString(36)\<close>.
\<close>

definition requestLogger :: "int \<Rightarrow> string \<Rightarrow> request \<Rightarrow> world \<Rightarrow> js_error + world" where
  "requestLogger startTime rnd req w =
     (let requestId = orVal (getProp (headers req) ''x-request-id'') (Str (substring 2 rnd))
      in case setHeader ''x-request-id'' requestId (res w) of
           Inl e \<Rightarrow> Inl e
         | Inr r \<Rightarrow>
             (let w1 = emit LevelDebug
                         (RequestLog requestId (reqMethod req) (url req) (path req) (query req)
                            (getFilteredHeaders req)
                            (orVal (ip req) (orVal (remoteAddress req) (Str ''unknown''))))
                         ''Request received'' (w\<lparr>res := r\<rparr>);
                  originalEnd = endFn (res w1);
                  w2 = w1\<lparr>res := (res w1)\<lparr>endFn := LoggingEnd requestId startTime req originalEnd\<rparr>\<rparr>
              in Inr (callNext None w2)))"

text \<open>The terminal events of a log are its events of type 'response'.\<close>

fun isResponseLog :: "log_event \<Rightarrow> bool" where
  "isResponseLog e = (case payload e of ResponseLog _ _ _ _ _ _ \<Rightarrow> True | _ \<Rightarrow> False)"

definition terminalEvents :: "world \<Rightarrow> log_event list" where
  "terminalEvents w = filter isResponseLog (logged w)"

text \<open>A run of calls of \<^verbatim>\<open>res.end\<close>, each with its time and its chunk.\<close>

fun endCalls :: "(int \<times> body option) list \<Rightarrow> world \<Rightarrow> world" where
  "endCalls [] w = w"
| "endCalls ((now, chunk) # cs) w = endCalls cs (res_end now chunk w)"

section \<open>Policy adapter\<close>

text \<open>
  The evaluator is any middleware written against the shim \<^verbatim>\<open>c\<close>. It reads the request
  (through \<^verbatim>\<open>c.req\<close>, whose \<^verbatim>\<open>raw\<close> is the request itself) and calls the operations of
  the shim and the callback it is given; what it does next may depend on what each call returned or threw. At the end
  it returns a result (\<^const>\<open>None\<close> is \<^verbatim>\<open>undefined\<close>) or throws.
\<close>

datatype shim_op =
    ResStatus int  \<comment> \<open>\<^verbatim>\<open>c.res.status(code)\<close>\<close>
  | ResBody string  \<comment> \<open>\<^verbatim>\<open>c.res.body(body)\<close>\<close>
  | CHeader string string  \<comment> \<open>\<^verbatim>\<open>c.header(name, value)\<close>\<close>
  | HeadersSet string string  \<comment> \<open>\<^verbatim>\<open>c.res.headers.set(name, value)\<close>\<close>
  | HeadersAppend string string  \<comment> \<open>\<^verbatim>\<open>c.res.headers.append(name, value)\<close>\<close>
  | HeadersDelete string  \<comment> \<open>\<^verbatim>\<open>c.res.headers.delete(name)\<close>\<close>
  | Continue  \<comment> \<open>the callback \<^verbatim>\<open>async () => {}\<close> that the adapter passes as \<^verbatim>\<open>next\<close>\<close>

datatype op_result = ReturnsShim | ReturnsUndefined | Raises js_error

datatype hono_result = Null | HonoResponse int "string obj" "string option"

datatype evaluation =
    Return "hono_result option"
  | Throw js_error
  | Call shim_op "op_result \<Rightarrow> evaluation"

datatype outcome = Returned "hono_result option" | Threw js_error

text \<open>
  One call of the shim. The state is the shim's own \<^verbatim>\<open>Headers\<close> object
  (\<^verbatim>\<open>c.res.headers\<close>, entries under lower-cased names) and the world with the real
  response.
\<close>

fun shimCall :: "bool \<Rightarrow> shim_op \<Rightarrow> string obj \<times> world \<Rightarrow> op_result \<times> string obj \<times> world" where
  "shimCall strict (ResStatus c) (hs, w) =
     (case status strict c (res w) of
        Inl e \<Rightarrow> (Raises e, hs, w)
      | Inr r \<Rightarrow> (ReturnsShim, hs, w\<lparr>res := r\<rparr>))"
| "shimCall strict (ResBody b) (hs, w) = (ReturnsShim, hs, w)"
| "shimCall strict (CHeader nm v) (hs, w) =
     (case setHeader nm (Str v) (res w) of
        Inl e \<Rightarrow> (Raises e, hs, w)
      | Inr r \<Rightarrow> (ReturnsShim, hs, w\<lparr>res := r\<rparr>))"
| "shimCall strict (HeadersSet nm v) (hs, w) =
     (ReturnsUndefined, AList.delete (toLowerCase nm) hs @ [(toLowerCase nm, v)], w)"
| "shimCall strict (HeadersAppend nm v) (hs, w) = (ReturnsUndefined, hs @ [(toLowerCase nm, v)], w)"
| "shimCall strict (HeadersDelete nm) (hs, w) = (ReturnsUndefined, AList.delete (toLowerCase nm) hs, w)"
| "shimCall strict Continue (hs, w) = (ReturnsUndefined, hs, w)"

primrec runEvaluation ::
  "bool \<Rightarrow> evaluation \<Rightarrow> string obj \<times> world \<Rightarrow> outcome \<times> string obj \<times> world" where
  "runEvaluation strict (Return r) s = (Returned r, s)"
| "runEvaluation strict (Throw e) s = (Threw e, s)"
| "runEvaluation strict (Call op k) s =
     (case shimCall strict op s of (r, s') \<Rightarrow> runEvaluation strict (k r) s')"




text \<open>
  The adapter: a fresh shim with an empty \<^verbatim>\<open>Headers\<close> object, the evaluator awaited
  inside \<^verbatim>\<open>try\<close>, then the preflight short-circuit or \<^verbatim>\<open>next\<close>. \<open>now\<close> is the value of
  \<^verbatim>\<open>Date.now()\<close> should \<^verbatim>\<open>res.end\<close> ask for it. The \<^verbatim>\<open>try\<close> block holds
  \<^verbatim>\<open>res.status(204)\<close> too: what it throws goes to \<^verbatim>\<open>next\<close>.
\<close>

definition honoAdapter ::
  "bool \<Rightarrow> (request \<Rightarrow> evaluation) \<Rightarrow> int \<Rightarrow> request \<Rightarrow> world \<Rightarrow> world" where
  "honoAdapter strict middleware now req w =
     (case runEvaluation strict (middleware req) ([], w) of
        (Returned result, hs, w1) \<Rightarrow>
          (if result \<noteq> None \<and> reqMethod req = ''OPTIONS''
           then (case status strict 204 (res w1) of
                   Inl e \<Rightarrow> callNext (Some e) w1
                 | Inr r \<Rightarrow> res_end now None (w1\<lparr>res := r\<rparr>))
           else callNext None w1)
      | (Threw e, hs, w1) \<Rightarrow> callNext (Some e) w1)"

section \<open>Error responder\<close>

text \<open>
  \<open>IS_PRODUCTION\<close> is \<^verbatim>\<open>SERVER.IS_PRODUCTION\<close> and \<open>ts\<close> the text of
  \<^verbatim>\<open>new Date().toISOString()\<close>. The spread
  \<^verbatim>\<open>...(errorDetails ? { details: errorDetails } : {})\<close> adds the field \<^verbatim>\<open>details\<close> exactly
  when \<^verbatim>\<open>errorDetails\<close> was assigned.

  \<open>json\<close> is Express's \<^verbatim>\<open>res.json\<close> on the response of this request. It is a library's,
  and what it sends depends on the request, on the status and on the version of Express:
  it ends the response to a HEAD request without a body, sends no body with the status 204
  or 304, throws once the headers are sent, and Node refuses to send a status outside
  100..999. The handler's own part is the status it sets and the envelope it hands over,
  so \<open>json\<close> is a parameter: the envelope and the world it is applied to.
\<close>

definition errorHandler ::
  "(error_response \<Rightarrow> world \<Rightarrow> js_error option \<times> world) \<Rightarrow> bool \<Rightarrow> bool \<Rightarrow> string \<Rightarrow>
   failure \<Rightarrow> request \<Rightarrow> world \<Rightarrow> js_error option \<times> world" where
  "errorHandler json strict IS_PRODUCTION ts err req w =
     (let statusCode = orNum (err_status err) (orNum (err_statusCode err) 500);
          errorMessage = orStr (err_message err) ''Internal Server Error'';
          w1 = emit LevelError
                 (ErrorLog (if isError err then ErrorObject err else StringOf err)
                    (if isError err then err_stack err else None)
                    (path req) (reqMethod req) (url req))
                 ''Request error'' w;
          errorDetails = (if \<not> IS_PRODUCTION
                          then Some \<lparr>name = err_name err, stack = err_stack err\<rparr>
                          else None);
          errorResponse =
            \<lparr>error = \<lparr>code = statusCode, message = errorMessage,
                       details = (case errorDetails of Some d \<Rightarrow> Some d | None \<Rightarrow> None)\<rparr>,
             success = False, timestamp = ts, envPath = path req\<rparr>
      in case status strict statusCode (res w1) of
           Inl e \<Rightarrow> (Some e, w1)
         | Inr r \<Rightarrow> json errorResponse (w1\<lparr>res := r\<rparr>))"

text \<open>
  The world after the handler has logged the failure, and the world in which it calls
  \<^verbatim>\<open>res.json\<close>: the failure is logged and the status of the response is set.
\<close>

definition afterLog :: "failure \<Rightarrow> request \<Rightarrow> world \<Rightarrow> world" where
  "afterLog err req w =
     emit LevelError
       (ErrorLog (if isError err then ErrorObject err else StringOf err)
          (if isError err then err_stack err else None)
          (path req) (reqMethod req) (url req))
       ''Request error'' w"

definition beforeJson :: "int \<Rightarrow> failure \<Rightarrow> request \<Rightarrow> world \<Rightarrow> world" where
  "beforeJson sc err req w = (afterLog err req w)\<lparr>res := (res w)\<lparr>statusCode := sc\<rparr>\<rparr>"

section \<open>Example inputs\<close>

definition freshWorld :: world where
  "freshWorld =
     \<lparr>res = \<lparr>statusCode = 200, resHeaders = [], finished = False, sentBody = None,
              endFn = NativeEnd\<rparr>,
      logged = [], nextCalls = []\<rparr>"

definition exampleRequest :: "string \<Rightarrow> jsval obj \<Rightarrow> request" where
  "exampleRequest m hs =
     \<lparr>reqMethod = m, url = ''/api?x=1'', path = ''/api'', query = [(''x'', ''1'')], headers = hs,
      ip = Undefined, remoteAddress = Str ''10.0.0.7''\<rparr>"

definition exampleFailure :: "int option \<Rightarrow> string option \<Rightarrow> failure" where
  "exampleFailure st msg =
     \<lparr>err_status = st, err_statusCode = None, err_message = msg, err_name = Some ''Error'',
      err_stack = Some ''Error: at handler (app.js:10:5)'', isError = True\<rparr>"

text \<open>
  A \<^verbatim>\<open>res.json\<close> for the examples: what Express does on a request that is not HEAD with a
  status in 100..999 other than 204 and 304. It throws once the headers are sent, and
  otherwise ends the response through \<^verbatim>\<open>res.end\<close> with the object as body.
\<close>

definition exampleJson :: "int \<Rightarrow> error_response \<Rightarrow> world \<Rightarrow> js_error option \<times> world" where
  "exampleJson now ob w =
     (if finished (res w) then (Some ERR_HTTP_HEADERS_SENT, w)
      else (None, res_end now (Some (Json ob)) w))"

text \<open>
  Three evaluators. The first does what a CORS policy does on the shim: it writes the
  policy's headers into \<^verbatim>\<open>c.res.headers\<close> and answers a preflight with a response of its
  own. The second sets a header and throws. The third uses every operation of the shim.
\<close>

definition corsEvaluator :: "request \<Rightarrow> evaluation" where
  "corsEvaluator req =
     Call (HeadersSet ''Access-Control-Allow-Origin'' ''*'')
       (\<lambda>_. if reqMethod req = ''OPTIONS''
             then Call (HeadersSet ''Access-Control-Allow-Methods'' ''GET,POST'')
                    (\<lambda>_. Return (Some (HonoResponse 204
                                        [(''access-control-allow-origin'', ''*''),
                                         (''access-control-allow-methods'', ''GET,POST'')]
                                        None)))
             else Call Continue (\<lambda>_. Return None))"

definition throwingEvaluator :: "failure \<Rightarrow> request \<Rightarrow> evaluation" where
  "throwingEvaluator err req = Call (CHeader ''Vary'' ''Origin'') (\<lambda>_. Throw (Thrown err))"


section \<open>Facts about the header filter\<close>

lemma filterEntries_keys:
  "distinct (map fst hs) \<Longrightarrow> distinct (map fst (filterEntries es hs))"
  by (induction es hs rule: filterEntries.induct) (auto simp: distinct_update assign_def)

lemma filterEntries_no_proto:
  "''__proto__'' \<notin> fst ` set hs \<Longrightarrow> ''__proto__'' \<notin> fst ` set (filterEntries es hs)"
proof (induction es hs rule: filterEntries.induct)
  case (1 hs)
  then show ?case by simp
next
  case (2 key v rest hs)
  have "''__proto__'' \<notin> fst ` set (assign key (filteredValue key v) hs)"
    using 2(2) by (simp add: assign_def dom_update)
  then show ?case
    using 2(1) by simp
qed

lemma update_fresh_key: "k \<notin> fst ` set hs \<Longrightarrow> AList.update k v hs = hs @ [(k, v)]"
  by (induction hs) auto

lemma filterEntries_distinct:
  "distinct (map fst es) \<Longrightarrow> fst ` set es \<inter> fst ` set hs = {} \<Longrightarrow>
   filterEntries es hs =
     hs @ map (\<lambda>(k, v). (k, filteredValue k v)) (filter (\<lambda>(k, v). k \<noteq> ''__proto__'') es)"
proof (induction es hs rule: filterEntries.induct)
  case (1 hs)
  then show ?case by simp
next
  case (2 key v rest hs)
  show ?case
  proof (cases "key = ''__proto__''")
    case True
    have "fst ` set rest \<inter> fst ` set hs = {}"
      using 2(3) by auto
    then show ?thesis
      using 2 True by (simp add: assign_def)
  next
    case False
    have fresh: "key \<notin> fst ` set hs"
      using 2(3) by auto
    have "fst ` set rest \<inter> fst ` set (hs @ [(key, filteredValue key v)]) = {}"
      using 2(2,3) by force
    then show ?thesis
      using 2 False by (simp add: assign_def update_fresh_key [OF fresh])
  qed
qed

lemma redacted_update:
  "redacted hs \<Longrightarrow> redacted (assign key (filteredValue key v) hs)"
  by (induction hs) (auto simp: redacted_def filteredValue_def assign_def)

lemma filterEntries_redacted: "redacted hs \<Longrightarrow> redacted (filterEntries es hs)"
  by (induction es hs rule: filterEntries.induct) (simp_all add: redacted_update)

lemma filteredValue_fixed:
  "redacted hs \<Longrightarrow> (k, v) \<in> set hs \<Longrightarrow> filteredValue k (Str v) = v"
  by (auto simp: redacted_def filteredValue_def list_all_iff)

section \<open>Facts about the response and the evaluator\<close>

lemma callEnd_nextCalls: "nextCalls (callEnd f now c w) = nextCalls w"
  by (induction f arbitrary: w) (simp_all add: emit_def Let_def)

lemma callEnd_statusCode: "statusCode (res (callEnd f now c w)) = statusCode (res w)"
  by (induction f arbitrary: w) (simp_all add: emit_def Let_def nativeEnd_def)

lemma callEnd_resHeaders: "resHeaders (res (callEnd f now c w)) = resHeaders (res w)"
  by (induction f arbitrary: w) (simp_all add: emit_def Let_def nativeEnd_def)

lemma callEnd_endFn: "endFn (res (callEnd f now c w)) = endFn (res w)"
  by (induction f arbitrary: w) (simp_all add: emit_def Let_def nativeEnd_def)

lemma callEnd_finished: "finished (res (callEnd f now c w))"
  by (induction f arbitrary: w) (simp_all add: emit_def Let_def nativeEnd_def)

lemma callEnd_sentBody:
  "sentBody (res (callEnd f now c w)) =
     (if finished (res w) then sentBody (res w)
      else (case c of None \<Rightarrow> sentBody (res w) | Some b \<Rightarrow> Some b))"
  by (induction f arbitrary: w) (simp_all add: emit_def Let_def nativeEnd_def split: option.splits)

lemma shimCall_frame:
  "shimCall strict op (hs, w) = (r, hs', w') \<Longrightarrow>
   \<exists>c h. w' = w\<lparr>res := (res w)\<lparr>statusCode := c, resHeaders := h\<rparr>\<rparr>"
proof (cases op)
  case (ResStatus x1)
  assume a: "shimCall strict op (hs, w) = (r, hs', w')"
  show ?thesis
  proof (cases "strict \<and> (x1 < 100 \<or> 999 < x1)")
    case True
    with a ResStatus have "w' = w\<lparr>res := (res w)\<lparr>statusCode := statusCode (res w), resHeaders := resHeaders (res w)\<rparr>\<rparr>"
      by (auto simp: status_def)
    then show ?thesis by blast
  next
    case False
    with a ResStatus have "w' = w\<lparr>res := (res w)\<lparr>statusCode := x1, resHeaders := resHeaders (res w)\<rparr>\<rparr>"
      by (auto simp: status_def)
    then show ?thesis by blast
  qed
next
  case (CHeader nm v)
  assume a: "shimCall strict op (hs, w) = (r, hs', w')"
  show ?thesis
  proof (cases "finished (res w)")
    case True
    with a CHeader have "w' = w\<lparr>res := (res w)\<lparr>statusCode := statusCode (res w), resHeaders := resHeaders (res w)\<rparr>\<rparr>"
      by (auto simp: setHeader_def)
    then show ?thesis by blast
  next
    case False
    with a CHeader have "w' = w\<lparr>res := (res w)\<lparr>statusCode := statusCode (res w), resHeaders := AList.update (toLowerCase nm) (Str v) (resHeaders (res w))\<rparr>\<rparr>"
      by (auto simp: setHeader_def)
    then show ?thesis by blast
  qed
qed (force intro: exI[of _ "statusCode (res w)"] exI[of _ "resHeaders (res w)"])+

lemma runEvaluation_frame:
  "runEvaluation strict ev (hs, w) = (out, hs', w') \<Longrightarrow>
   \<exists>c h. w' = w\<lparr>res := (res w)\<lparr>statusCode := c, resHeaders := h\<rparr>\<rparr>"
proof (induction ev arbitrary: hs w)
  case (Return x)
  then have "w' = w\<lparr>res := (res w)\<lparr>statusCode := statusCode (res w), resHeaders := resHeaders (res w)\<rparr>\<rparr>" by simp
  then show ?case by blast
next
  case (Throw x)
  then have "w' = w\<lparr>res := (res w)\<lparr>statusCode := statusCode (res w), resHeaders := resHeaders (res w)\<rparr>\<rparr>" by simp
  then show ?case by blast
next
  case (Call op k)
  obtain r hs1 w1 where s: "shimCall strict op (hs, w) = (r, hs1, w1)" by (metis prod_cases3)
  with Call.prems have "runEvaluation strict (k r) (hs1, w1) = (out, hs', w')" by simp
  from Call.IH[OF _ this] obtain c h where 1: "w' = w1\<lparr>res := (res w1)\<lparr>statusCode := c, resHeaders := h\<rparr>\<rparr>"
    by (auto simp: rangeI)
  from shimCall_frame[OF s] obtain c0 h0 where 2: "w1 = w\<lparr>res := (res w)\<lparr>statusCode := c0, resHeaders := h0\<rparr>\<rparr>" by blast
  from 1 2 have "w' = w\<lparr>res := (res w)\<lparr>statusCode := c, resHeaders := h\<rparr>\<rparr>" by simp
  then show ?case by blast
qed

section \<open>Facts about the request logger\<close>

lemma toLowerCase_request_id: "toLowerCase ''x-request-id'' = ''x-request-id''"
  by (simp add: toLowerCase_def lowerChar_def)

lemma getProp_update: "getProp (AList.update k v hs) k = v"
  by (simp add: getProp_def update_conv')

lemma requestLogger_Inr:
  assumes "\<not> finished (res w)"
  shows "requestLogger startTime rnd req w =
     Inr (let requestId = orVal (getProp (headers req) ''x-request-id'') (Str (substring 2 rnd))
          in w\<lparr>res := (res w)\<lparr>resHeaders := AList.update ''x-request-id'' requestId (resHeaders (res w)),
                                 endFn := LoggingEnd requestId startTime req (endFn (res w))\<rparr>,
                logged := logged w @
                  [\<lparr>level = LevelDebug,
                    payload = RequestLog requestId (reqMethod req) (url req) (path req) (query req)
                                (getFilteredHeaders req)
                                (orVal (ip req) (orVal (remoteAddress req) (Str ''unknown''))),
                    logMessage = ''Request received''\<rparr>],
                nextCalls := nextCalls w @ [None]\<rparr>)"
  using assms
  by (simp add: requestLogger_def setHeader_def Let_def emit_def callNext_def toLowerCase_request_id)

lemma requestLogger_Inl:
  assumes "finished (res w)"
  shows "requestLogger startTime rnd req w = Inl ERR_HTTP_HEADERS_SENT"
  using assms by (simp add: requestLogger_def setHeader_def Let_def)

lemma requestLogger_endFn:
  assumes "requestLogger startTime rnd req w = Inr w1"
  shows "\<exists>rid. endFn (res w1) = LoggingEnd rid startTime req (endFn (res w))"
proof (cases "finished (res w)")
  case True
  with assms show ?thesis by (simp add: requestLogger_Inl)
next
  case False
  from requestLogger_Inr [OF False, of startTime rnd req] assms
  show ?thesis by (auto simp: Let_def)
qed

lemma requestLogger_terminal:
  assumes "requestLogger startTime rnd req w = Inr w1"
  shows "terminalEvents w1 = terminalEvents w"
proof (cases "finished (res w)")
  case True
  with assms show ?thesis by (simp add: requestLogger_Inl)
next
  case False
  from requestLogger_Inr [OF False, of startTime rnd req] assms
  show ?thesis by (auto simp: Let_def terminalEvents_def)
qed

lemma res_end_logging:
  assumes "endFn (res w) = LoggingEnd rid t0 req NativeEnd"
  shows "res_end now chunk w =
     w\<lparr>logged := logged w @
          [\<lparr>level = responseLevel (statusCode (res w)),
            payload = ResponseLog rid (reqMethod req) (url req) (path req) (statusCode (res w)) (now - t0),
            logMessage = responseMessage (statusCode (res w)) (now - t0)\<rparr>],
       res := nativeEnd chunk (res w)\<rparr>"
  using assms by (simp add: res_end_def Let_def emit_def)

lemma nativeEnd_endFn: "endFn (nativeEnd chunk r) = endFn r"
  by (simp add: nativeEnd_def)

lemma endCalls_count:
  assumes "endFn (res w) = LoggingEnd rid t0 req NativeEnd"
  shows "length (terminalEvents (endCalls cs w)) = length (terminalEvents w) + length cs"
  using assms
proof (induction cs arbitrary: w)
  case Nil
  then show ?case by simp
next
  case (Cons c cs)
  obtain now chunk where c: "c = (now, chunk)" by (cases c)
  have e: "endFn (res (res_end now chunk w)) = LoggingEnd rid t0 req NativeEnd"
    using Cons.prems by (simp add: res_end_logging nativeEnd_endFn)
  have n: "length (terminalEvents (res_end now chunk w)) = Suc (length (terminalEvents w))"
    using Cons.prems by (simp add: res_end_logging terminalEvents_def)
  show ?case
    using Cons.IH [OF e] n by (simp add: c)
qed

text \<open>
  \<^verbatim>\<open>Number.prototype.toString\<close> prints zero as \<open>0\<close> in every radix: were the draw of
  \<^verbatim>\<open>Math.random()\<close> exactly zero, the id generated would be the empty string.
\<close>

lemma request_id_zero_draw:
  "(case requestLogger 1000 ''0'' (exampleRequest ''GET'' []) freshWorld of
      Inr w \<Rightarrow> getHeader ''x-request-id'' (res w)
    | Inl e \<Rightarrow> Undefined) = Str ''''"
  by (simp add: requestLogger_Inr freshWorld_def Let_def exampleRequest_def getHeader_def
      toLowerCase_request_id getProp_update getProp_def orVal_def substring_def)

section \<open>Facts about the adapter and the error responder\<close>




lemma runEvaluation_kept:
  assumes "runEvaluation strict ev (hs, w) = (out, hs', w')"
  shows "nextCalls w' = nextCalls w" and "logged w' = logged w"
    and "finished (res w') = finished (res w)" and "sentBody (res w') = sentBody (res w)"
    and "endFn (res w') = endFn (res w)"
proof -
  from runEvaluation_frame [OF assms]
  obtain c h where "w' = w\<lparr>res := (res w)\<lparr>statusCode := c, resHeaders := h\<rparr>\<rparr>"
    by blast
  then show "nextCalls w' = nextCalls w" and "logged w' = logged w"
    and "finished (res w') = finished (res w)" and "sentBody (res w') = sentBody (res w)"
    and "endFn (res w') = endFn (res w)"
    by simp_all
qed

lemma status_accepts:
  "\<not> strict \<or> (100 \<le> c \<and> c \<le> 999) \<Longrightarrow> status strict c r = Inr (r\<lparr>statusCode := c\<rparr>)"
  by (auto simp: status_def)

lemma status_refuses:
  "strict \<and> (c < 100 \<or> 999 < c) \<Longrightarrow> status strict c r = Inl ERR_INVALID_STATUS_CODE"
  by (simp add: status_def)

lemma honoAdapter_returned:
  assumes "runEvaluation strict (middleware req) ([], w) = (Returned result, hs, w1)"
  shows "honoAdapter strict middleware now req w =
     (if result \<noteq> None \<and> reqMethod req = ''OPTIONS''
      then res_end now None (w1\<lparr>res := (res w1)\<lparr>statusCode := 204\<rparr>\<rparr>)
      else callNext None w1)"
  using assms by (simp add: honoAdapter_def status_accepts)

lemma honoAdapter_threw:
  assumes "runEvaluation strict (middleware req) ([], w) = (Threw e, hs, w1)"
  shows "honoAdapter strict middleware now req w = callNext (Some e) w1"
  using assms by (simp add: honoAdapter_def)

lemma runEvaluation_cases:
  obtains (returned) result hs w1 where "runEvaluation strict ev s = (Returned result, hs, w1)"
  | (threw) e hs w1 where "runEvaluation strict ev s = (Threw e, hs, w1)"
proof -
  obtain out hs w1 where "runEvaluation strict ev s = (out, hs, w1)"
    by (metis prod_cases3)
  then show thesis
    by (cases out) (auto intro: returned threw)
qed

lemma errorHandler_accepted:
  assumes "\<not> strict \<or> (100 \<le> sc \<and> sc \<le> 999)"
    and "sc = orNum (err_status err) (orNum (err_statusCode err) 500)"
  shows "errorHandler json strict IS_PRODUCTION ts err req w =
     json \<lparr>error = \<lparr>code = sc,
                       message = orStr (err_message err) ''Internal Server Error'',
                       details = (if IS_PRODUCTION then None
                                  else Some \<lparr>name = err_name err, stack = err_stack err\<rparr>)\<rparr>,
           success = False, timestamp = ts, envPath = path req\<rparr>
       (beforeJson sc err req w)"
proof -
  have "status strict sc r = Inr (r\<lparr>statusCode := sc\<rparr>)" for r
    using assms(1) by (rule status_accepts)
  then show ?thesis
    unfolding assms(2) by (simp add: errorHandler_def Let_def beforeJson_def afterLog_def emit_def)
qed

lemma errorHandler_refused:
  assumes "strict \<and> (sc < 100 \<or> 999 < sc)"
    and "sc = orNum (err_status err) (orNum (err_statusCode err) 500)"
  shows "errorHandler json strict IS_PRODUCTION ts err req w =
     (Some ERR_INVALID_STATUS_CODE, afterLog err req w)"
proof -
  have "status strict sc r = Inl ERR_INVALID_STATUS_CODE" for r
    using assms(1) by (rule status_refuses)
  then show ?thesis
    unfolding assms(2) by (simp add: errorHandler_def Let_def afterLog_def)
qed

lemma orNum_hints:
  "orNum (err_status err) (orNum (err_statusCode err) 500) =
     (if err_status err \<noteq> None \<and> err_status err \<noteq> Some 0 then the (err_status err)
      else if err_statusCode err \<noteq> None \<and> err_statusCode err \<noteq> Some 0
           then the (err_statusCode err)
           else 500)"
  by (auto simp: orNum_def split: option.splits)

lemma orStr_message:
  "orStr (err_message err) ''Internal Server Error'' =
     (if err_message err \<noteq> None \<and> err_message err \<noteq> Some '''' then the (err_message err)
      else ''Internal Server Error'')"
  by (auto simp: orStr_def split: option.splits)

lemma exampleJson_fresh:
  "exampleJson now ob (beforeJson sc err req freshWorld) =
     (None, (beforeJson sc err req freshWorld)
              \<lparr>res := (res freshWorld)\<lparr>statusCode := sc, finished := True, sentBody := Some (Json ob)\<rparr>\<rparr>)"
  by (simp add: exampleJson_def beforeJson_def afterLog_def emit_def freshWorld_def res_end_def
      nativeEnd_def)

section \<open>Claims about the header filter\<close>

text \<open>
  C2, as stated: for every map of header names to values, \<open>getFilteredHeaders\<close> returns a copy
  that keeps every header. A header set that owns the name \<^verbatim>\<open>__proto__\<close> loses that header:
  the assignment under that name adds no property to the result.
\<close>

theorem getFilteredHeaders_proto_counterexample:
  "map_of (headers (exampleRequest ''GET'' [(''__proto__'', Str ''x''), (''host'', Str ''example.org'')]))
      ''__proto__'' = Some (Str ''x'') \<and>
   getFilteredHeaders (exampleRequest ''GET'' [(''__proto__'', Str ''x''), (''host'', Str ''example.org'')])
     = [(''host'', ''example.org'')] \<and>
   map_of (getFilteredHeaders
      (exampleRequest ''GET'' [(''__proto__'', Str ''x''), (''host'', Str ''example.org'')]))
      ''__proto__'' = None"
proof -
  have low: "toLowerCase ''host'' = ''host''"
    by (simp add: toLowerCase_def lowerChar_def)
  show ?thesis
    by (simp add: getFilteredHeaders_def exampleRequest_def assign_def filteredValue_def low
        sensitiveHeaders_def)
qed

text \<open>
  C2, amended: for the header set of any request, \<open>getFilteredHeaders\<close> returns a copy of
  the headers other than one named \<^verbatim>\<open>__proto__\<close>, which the copy lacks, with their names in
  the same order; in it a header whose lower-cased name is authorization, cookie or
  set-cookie holds \<open>[REDACTED]\<close>, an array value is joined with a comma and a space, an
  absent value is the empty string, and any other value is kept unchanged. The function is
  total: it has no failing branch. The names of an object are distinct.
\<close>

theorem getFilteredHeaders_redacts:
  assumes "distinct (map fst (headers req))"
  shows "map fst (getFilteredHeaders req) = filter (\<lambda>k. k \<noteq> ''__proto__'') (map fst (headers req)) \<and>
         map_of (getFilteredHeaders req) ''__proto__'' = None \<and>
         (\<forall>(k, v) \<in> set (headers req). k \<noteq> ''__proto__'' \<longrightarrow>
            map_of (getFilteredHeaders req) k =
              Some (if toLowerCase k \<in> {''authorization'', ''cookie'', ''set-cookie''}
                    then ''[REDACTED]''
                    else (case v of
                            Arr vs \<Rightarrow> join '', '' vs
                          | Undefined \<Rightarrow> ''''
                          | Str s \<Rightarrow> s)))"
proof -
  let ?f = "\<lambda>(k, v). (k, filteredValue k v)"
  let ?kept = "filter (\<lambda>(k, v). k \<noteq> ''__proto__'') (headers req)"
  have eq: "getFilteredHeaders req = map ?f ?kept"
    using filterEntries_distinct [OF assms, of "[]"] by (simp add: getFilteredHeaders_def)
  have keys: "map fst (map ?f ?kept) = filter (\<lambda>k. k \<noteq> ''__proto__'') (map fst (headers req))"
    by (induction "headers req") (auto simp: case_prod_beta comp_def filter_map)
  have d: "distinct (map fst (map ?f ?kept))"
    unfolding keys using assms by (rule distinct_filter)
  have look: "map_of (map ?f ?kept) k = Some (filteredValue k v)"
    if "(k, v) \<in> set (headers req)" and "k \<noteq> ''__proto__''" for k v
  proof -
    from that have "(k, filteredValue k v) \<in> set (map ?f ?kept)" by force
    with d show ?thesis by (simp del: map_map)
  qed
  have val: "filteredValue k v =
      (if toLowerCase k \<in> {''authorization'', ''cookie'', ''set-cookie''} then ''[REDACTED]''
       else (case v of Arr vs \<Rightarrow> join '', '' vs | Undefined \<Rightarrow> '''' | Str s \<Rightarrow> s))" for k v
    by (cases v) (simp_all add: filteredValue_def sensitiveHeaders_def)
  show ?thesis
  proof (intro conjI ballI)
    show "map fst (getFilteredHeaders req) = filter (\<lambda>k. k \<noteq> ''__proto__'') (map fst (headers req))"
      unfolding eq by (rule keys)
  next
    have "''__proto__'' \<notin> fst ` set (getFilteredHeaders req)"
      unfolding getFilteredHeaders_def by (rule filterEntries_no_proto) simp
    then show "map_of (getFilteredHeaders req) ''__proto__'' = None"
      by (simp add: map_of_eq_None_iff)
  next
    fix e
    assume mem: "e \<in> set (headers req)"
    obtain k v where e: "e = (k, v)"
      by (cases e)
    have "map_of (getFilteredHeaders req) k = Some (filteredValue k v)" if "k \<noteq> ''__proto__''"
      unfolding eq using mem e that by (intro look) simp_all
    then show "case e of (k, v) \<Rightarrow> k \<noteq> ''__proto__'' \<longrightarrow>
        map_of (getFilteredHeaders req) k =
          Some (if toLowerCase k \<in> {''authorization'', ''cookie'', ''set-cookie''}
                then ''[REDACTED]''
                else (case v of Arr vs \<Rightarrow> join '', '' vs | Undefined \<Rightarrow> '''' | Str s \<Rightarrow> s))"
      unfolding e prod.case val by blast
  qed
qed

theorem getFilteredHeaders_redacts_witness:
  "map_of (getFilteredHeaders (exampleRequest ''GET''
      [(''Authorization'', Str ''Bearer X''), (''accept'', Arr [''text/html'', ''*/*'']),
       (''x-empty'', Undefined), (''host'', Str ''example.org'')])) ''Authorization''
     = Some ''[REDACTED]'' \<and>
   map_of (getFilteredHeaders (exampleRequest ''GET''
      [(''Authorization'', Str ''Bearer X''), (''accept'', Arr [''text/html'', ''*/*'']),
       (''x-empty'', Undefined), (''host'', Str ''example.org'')])) ''accept''
     = Some ''text/html, */*'' \<and>
   map fst (getFilteredHeaders (exampleRequest ''GET''
      [(''Authorization'', Str ''Bearer X''), (''accept'', Arr [''text/html'', ''*/*'']),
       (''x-empty'', Undefined), (''host'', Str ''example.org'')]))
     = [''Authorization'', ''accept'', ''x-empty'', ''host'']"
proof -
  let ?req = "exampleRequest ''GET''
      [(''Authorization'', Str ''Bearer X''), (''accept'', Arr [''text/html'', ''*/*'']),
       (''x-empty'', Undefined), (''host'', Str ''example.org'')]"
  have d: "distinct (map fst (headers ?req))"
    by (simp add: exampleRequest_def)
  have low: "toLowerCase ''Authorization'' = ''authorization''" "toLowerCase ''accept'' = ''accept''"
    by (simp_all add: toLowerCase_def lowerChar_def)
  from getFilteredHeaders_redacts [OF d] show ?thesis
    by (simp add: exampleRequest_def low)
qed

text \<open>
  C8. Filtering is idempotent: the filtered header set of a request, taken as the header
  set of the request again, is filtered to itself.
\<close>

theorem getFilteredHeaders_idempotent:
  "getFilteredHeaders (req\<lparr>headers := asHeaders (getFilteredHeaders req)\<rparr>) = getFilteredHeaders req"
proof -
  let ?g = "getFilteredHeaders req"
  have d: "distinct (map fst ?g)"
    unfolding getFilteredHeaders_def by (rule filterEntries_keys) simp
  have r: "redacted ?g"
    unfolding getFilteredHeaders_def by (rule filterEntries_redacted) (simp add: redacted_def)
  have np: "''__proto__'' \<notin> fst ` set ?g"
    unfolding getFilteredHeaders_def by (rule filterEntries_no_proto) simp
  have keys: "map fst (asHeaders ?g) = map fst ?g"
    by (simp add: asHeaders_def case_prod_beta comp_def)
  have all: "filter (\<lambda>(k, v). k \<noteq> ''__proto__'') (asHeaders ?g) = asHeaders ?g"
    using np by (auto simp: asHeaders_def filter_id_conv image_iff)
  have "filterEntries (asHeaders ?g) [] = map (\<lambda>(k, v). (k, filteredValue k v)) (asHeaders ?g)"
    using filterEntries_distinct [of "asHeaders ?g" "[]"] d keys all by simp
  also have "\<dots> = map (\<lambda>(k, v). (k, filteredValue k (Str v))) ?g"
    by (simp add: asHeaders_def case_prod_beta comp_def)
  also have "\<dots> = map (\<lambda>(k, v). (k, v)) ?g"
    by (rule map_cong) (auto simp: filteredValue_fixed [OF r])
  finally show ?thesis
    by (simp add: getFilteredHeaders_def)
qed

section \<open>Claims about the request logger\<close>

text \<open>
  C1, as stated: every request yields exactly one terminal log event, also when
  \<^verbatim>\<open>res.end\<close> is invoked more than once. The logging function has no guard: it logs on
  every call, so a request whose \<^verbatim>\<open>res.end\<close> is invoked twice yields two terminal events.
\<close>

theorem terminal_event_twice_counterexample:
  "(case requestLogger 1000 ''0.4fzyo82mvyr'' (exampleRequest ''GET'' []) freshWorld of
      Inr w \<Rightarrow> length (terminalEvents (endCalls [(1005, Some (Text ''ok'')), (1006, None)] w))
    | Inl e \<Rightarrow> 0) = 2"
  by (simp add: requestLogger_Inr freshWorld_def Let_def res_end_logging nativeEnd_def terminalEvents_def)

text \<open>
  C1, amended: after \<open>requestLogger\<close> has replaced the \<^verbatim>\<open>res.end\<close> of a response that had
  Node's own, every invocation of \<^verbatim>\<open>res.end\<close> emits exactly one terminal log event: a
  request whose \<^verbatim>\<open>res.end\<close> is invoked \<open>n\<close> times yields \<open>n\<close> terminal events, and exactly
  one when it is invoked exactly once.
\<close>

theorem terminal_event_per_end_call:
  assumes "requestLogger startTime rnd req w = Inr w1"
    and "endFn (res w) = NativeEnd"
  shows "length (terminalEvents (endCalls cs w1)) = length (terminalEvents w) + length cs"
proof -
  from requestLogger_endFn [OF assms(1)] assms(2)
  obtain rid where "endFn (res w1) = LoggingEnd rid startTime req NativeEnd"
    by auto
  from endCalls_count [OF this] requestLogger_terminal [OF assms(1)]
  show ?thesis by simp
qed

theorem terminal_event_per_end_call_witness:
  "\<exists>w1. requestLogger 1000 ''0.4fzyo82mvyr'' (exampleRequest ''GET'' []) freshWorld = Inr w1 \<and>
     endFn (res freshWorld) = NativeEnd \<and>
     length (terminalEvents (endCalls [(1005, Some (Text ''ok'')), (1006, None), (1009, None)] w1)) = 3"
proof -
  have nf: "\<not> finished (res freshWorld)" and ne: "endFn (res freshWorld) = NativeEnd"
    by (simp_all add: freshWorld_def)
  from requestLogger_Inr [OF nf]
  obtain w1 where r: "requestLogger 1000 ''0.4fzyo82mvyr'' (exampleRequest ''GET'' []) freshWorld = Inr w1"
    by blast
  have "terminalEvents freshWorld = []"
    by (simp add: terminalEvents_def freshWorld_def)
  with terminal_event_per_end_call [OF r ne, of "[(1005, Some (Text ''ok'')), (1006, None), (1009, None)]"]
  have "length (terminalEvents (endCalls [(1005, Some (Text ''ok'')), (1006, None), (1009, None)] w1)) = 3"
    by simp
  with r ne show ?thesis by blast
qed

text \<open>
  C3, as stated: a request that carries an inbound \<^verbatim>\<open>x-request-id\<close> header gets exactly that
  value echoed. An inbound header with the empty value is falsy for \<^verbatim>\<open>||\<close>, and the
  response carries a generated id instead.
\<close>

theorem request_id_empty_counterexample:
  "map_of (headers (exampleRequest ''GET'' [(''x-request-id'', Str '''')])) ''x-request-id'' = Some (Str '''') \<and>
   (case requestLogger 1000 ''0.4fzyo82mvyr'' (exampleRequest ''GET'' [(''x-request-id'', Str '''')]) freshWorld of
      Inr w \<Rightarrow> getHeader ''x-request-id'' (res w)
    | Inl e \<Rightarrow> Undefined) = Str ''4fzyo82mvyr''"
  by (simp add: requestLogger_Inr freshWorld_def Let_def exampleRequest_def getHeader_def
      toLowerCase_request_id getProp_update getProp_def orVal_def substring_def)

text \<open>
  C3, amended: on a response whose headers are not sent, \<open>requestLogger\<close> sets the response
  header \<^verbatim>\<open>x-request-id\<close> to the inbound value when that value is truthy (a non-empty
  string, or an array), and otherwise (no header, or an empty one) to the text of
  \<^verbatim>\<open>Math.random().toString(36)\<close> without its first two characters; that is a non-empty
  base-36 string whenever the text is \<open>0.\<close> followed by at least one base-36 digit.
\<close>

theorem requestLogger_request_id:
  assumes "\<not> finished (res w)"
  shows "\<exists>w1. requestLogger startTime rnd req w = Inr w1 \<and>
           getHeader ''x-request-id'' (res w1) =
             (if truthy (getProp (headers req) ''x-request-id'')
              then getProp (headers req) ''x-request-id''
              else Str (drop 2 rnd)) \<and>
           (\<not> truthy (getProp (headers req) ''x-request-id'') \<and>
            (\<exists>ds. rnd = ''0.'' @ ds \<and> ds \<noteq> [] \<and> isBase36 ds) \<longrightarrow>
              (\<exists>g. getHeader ''x-request-id'' (res w1) = Str g \<and> g \<noteq> [] \<and> isBase36 g))"
proof -
  let ?inbound = "getProp (headers req) ''x-request-id''"
  let ?id = "orVal ?inbound (Str (substring 2 rnd))"
  from requestLogger_Inr [OF assms, of startTime rnd req]
  obtain w1 where r: "requestLogger startTime rnd req w = Inr w1"
    and h: "resHeaders (res w1) = AList.update ''x-request-id'' ?id (resHeaders (res w))"
    by (simp add: Let_def)
  have g: "getHeader ''x-request-id'' (res w1) = ?id"
    by (simp add: getHeader_def toLowerCase_request_id h getProp_update)
  have v: "?id = (if truthy ?inbound then ?inbound else Str (drop 2 rnd))"
    by (simp add: orVal_def substring_def)
  have "\<exists>g. ?id = Str g \<and> g \<noteq> [] \<and> isBase36 g"
    if "\<not> truthy ?inbound" and "\<exists>ds. rnd = ''0.'' @ ds \<and> ds \<noteq> [] \<and> isBase36 ds"
    using that by (auto simp: orVal_def substring_def)
  with r g v show ?thesis by auto
qed

theorem requestLogger_request_id_witness:
  "\<exists>w1 w2. requestLogger 1000 ''0.4fzyo82mvyr'' (exampleRequest ''GET'' [(''x-request-id'', Str ''abc123'')]) freshWorld = Inr w1 \<and>
     getHeader ''x-request-id'' (res w1) = Str ''abc123'' \<and>
     requestLogger 1000 ''0.4fzyo82mvyr'' (exampleRequest ''GET'' []) freshWorld = Inr w2 \<and>
     getHeader ''x-request-id'' (res w2) = Str ''4fzyo82mvyr''"
proof -
  have nf: "\<not> finished (res freshWorld)"
    by (simp add: freshWorld_def)
  from requestLogger_request_id [OF nf, of 1000 "''0.4fzyo82mvyr''" "exampleRequest ''GET'' [(''x-request-id'', Str ''abc123'')]"]
  obtain w1 where "requestLogger 1000 ''0.4fzyo82mvyr'' (exampleRequest ''GET'' [(''x-request-id'', Str ''abc123'')]) freshWorld = Inr w1"
    "getHeader ''x-request-id'' (res w1) = Str ''abc123''"
    by (auto simp: exampleRequest_def getProp_def)
  moreover
  from requestLogger_request_id [OF nf, of 1000 "''0.4fzyo82mvyr''" "exampleRequest ''GET'' []"]
  obtain w2 where "requestLogger 1000 ''0.4fzyo82mvyr'' (exampleRequest ''GET'' []) freshWorld = Inr w2"
    "getHeader ''x-request-id'' (res w2) = Str ''4fzyo82mvyr''"
    by (auto simp: exampleRequest_def getProp_def)
  ultimately show ?thesis by blast
qed

text \<open>
  C4. When \<^verbatim>\<open>res.end\<close> is called on a response that \<open>requestLogger\<close> has wrapped, the event
  logged has the severity error for a status of 500 or more, warn for a status in
  [400, 500) and info otherwise, and its message holds the status code and the elapsed
  milliseconds in decimal.
\<close>

theorem response_severity:
  assumes "requestLogger startTime rnd req w0 = Inr w1"
    and "endFn (res w0) = NativeEnd"
    and "endFn (res w) = endFn (res w1)"
  shows "\<exists>e rid. logged (res_end now chunk w) = logged w @ [e] \<and>
           level e = (if statusCode (res w) \<ge> 500 then LevelError
                      else if 400 \<le> statusCode (res w) \<and> statusCode (res w) < 500 then LevelWarn
                      else LevelInfo) \<and>
           logMessage e = ''Response sent: '' @ showInt (statusCode (res w)) @ '' ('' @
                            showInt (now - startTime) @ ''ms)'' \<and>
           payload e = ResponseLog rid (reqMethod req) (url req) (path req) (statusCode (res w))
                         (now - startTime)"
proof -
  from requestLogger_endFn [OF assms(1)] assms(2,3)
  obtain rid where h: "endFn (res w) = LoggingEnd rid startTime req NativeEnd"
    by auto
  let ?e = "\<lparr>level = responseLevel (statusCode (res w)),
            payload = ResponseLog rid (reqMethod req) (url req) (path req) (statusCode (res w)) (now - startTime),
            logMessage = responseMessage (statusCode (res w)) (now - startTime)\<rparr>"
  have "logged (res_end now chunk w) = logged w @ [?e]"
    by (simp add: res_end_logging [OF h])
  moreover have "level ?e = (if statusCode (res w) \<ge> 500 then LevelError
                      else if 400 \<le> statusCode (res w) \<and> statusCode (res w) < 500 then LevelWarn
                      else LevelInfo)"
    by (simp add: responseLevel_def)
  moreover have "logMessage ?e = ''Response sent: '' @ showInt (statusCode (res w)) @ '' ('' @
                            showInt (now - startTime) @ ''ms)''"
    by (simp add: responseMessage_def)
  moreover have "payload ?e = ResponseLog rid (reqMethod req) (url req) (path req) (statusCode (res w))
                         (now - startTime)"
    by simp
  ultimately show ?thesis by blast
qed

theorem response_severity_witness:
  "\<exists>w1 e. requestLogger 1000 ''0.4fzyo82mvyr'' (exampleRequest ''GET'' []) freshWorld = Inr w1 \<and>
     logged (res_end 1012 None (w1\<lparr>res := (res w1)\<lparr>statusCode := 404\<rparr>\<rparr>)) = logged w1 @ [e] \<and>
     level e = LevelWarn \<and> logMessage e = ''Response sent: 404 (12ms)''"
proof -
  have nf: "\<not> finished (res freshWorld)" and ne: "endFn (res freshWorld) = NativeEnd"
    by (simp_all add: freshWorld_def)
  from requestLogger_Inr [OF nf]
  obtain w1 where r: "requestLogger 1000 ''0.4fzyo82mvyr'' (exampleRequest ''GET'' []) freshWorld = Inr w1"
    by blast
  let ?w = "w1\<lparr>res := (res w1)\<lparr>statusCode := 404\<rparr>\<rparr>"
  have same: "endFn (res ?w) = endFn (res w1)" and sc: "statusCode (res ?w) = 404"
    and lg: "logged ?w = logged w1"
    by (simp_all add: status_def)
  have s1: "showInt 404 = ''404''" and s2: "showInt (1012 - 1000) = ''12''"
    by (simp_all add: showInt_def showNat.simps digitChar_def)
  from response_severity [OF r ne same, of 1012 None]
  obtain e where "logged (res_end 1012 None ?w) = logged w1 @ [e]" "level e = LevelWarn"
    "logMessage e = ''Response sent: 404 (12ms)''"
    unfolding sc lg s1 s2 by auto
  with r show ?thesis by blast
qed

section \<open>Claims about the policy adapter\<close>

text \<open>
  C5. When the method is OPTIONS and the evaluator returns a defined result, the adapter
  sets the status 204 and ends the response without a chunk (the body of the response
  is what it was before), and \<^verbatim>\<open>next\<close> is not called. When the method is not OPTIONS, the
  adapter calls \<^verbatim>\<open>next\<close> exactly once and does not end the response; after an evaluator
  that returned, the call is \<^verbatim>\<open>next()\<close>, with no error.
\<close>

theorem honoAdapter_preflight:
  "(reqMethod req = ''OPTIONS'' \<and>
    (\<exists>r hs w1. runEvaluation strict (middleware req) ([], w) = (Returned (Some r), hs, w1)) \<longrightarrow>
      statusCode (res (honoAdapter strict middleware now req w)) = 204 \<and>
      finished (res (honoAdapter strict middleware now req w)) \<and>
      sentBody (res (honoAdapter strict middleware now req w)) = sentBody (res w) \<and>
      nextCalls (honoAdapter strict middleware now req w) = nextCalls w) \<and>
   (reqMethod req \<noteq> ''OPTIONS'' \<longrightarrow>
      (\<exists>arg. nextCalls (honoAdapter strict middleware now req w) = nextCalls w @ [arg]) \<and>
      finished (res (honoAdapter strict middleware now req w)) = finished (res w) \<and>
      sentBody (res (honoAdapter strict middleware now req w)) = sentBody (res w)) \<and>
   (reqMethod req \<noteq> ''OPTIONS'' \<and>
    (\<exists>r hs w1. runEvaluation strict (middleware req) ([], w) = (Returned r, hs, w1)) \<longrightarrow>
      nextCalls (honoAdapter strict middleware now req w) = nextCalls w @ [None])"
proof (intro conjI impI)
  assume a: "reqMethod req = ''OPTIONS'' \<and>
    (\<exists>r hs w1. runEvaluation strict (middleware req) ([], w) = (Returned (Some r), hs, w1))"
  then obtain r hs w1 where ev: "runEvaluation strict (middleware req) ([], w) = (Returned (Some r), hs, w1)"
    by blast
  have eq: "honoAdapter strict middleware now req w = res_end now None (w1\<lparr>res := (res w1)\<lparr>statusCode := 204\<rparr>\<rparr>)"
    using a by (simp add: honoAdapter_returned [where middleware = middleware and req = req, OF ev])
  show "statusCode (res (honoAdapter strict middleware now req w)) = 204"
    by (simp add: eq res_end_def callEnd_statusCode status_def)
  show "finished (res (honoAdapter strict middleware now req w))"
    by (simp add: eq res_end_def callEnd_finished)
  show "sentBody (res (honoAdapter strict middleware now req w)) = sentBody (res w)"
    by (simp add: eq res_end_def callEnd_sentBody status_def runEvaluation_kept(4) [OF ev])
  show "nextCalls (honoAdapter strict middleware now req w) = nextCalls w"
    by (simp add: eq res_end_def callEnd_nextCalls runEvaluation_kept(1) [OF ev])
next
  assume m: "reqMethod req \<noteq> ''OPTIONS''"
  show "\<exists>arg. nextCalls (honoAdapter strict middleware now req w) = nextCalls w @ [arg]"
  proof (cases strict "middleware req" "([] :: string obj, w)" rule: runEvaluation_cases)
    case (returned result hs w1)
    then show ?thesis
      using m by (simp add: honoAdapter_returned [where middleware = middleware and req = req, OF returned] callNext_def runEvaluation_kept(1) [OF returned])
  next
    case (threw e hs w1)
    then show ?thesis
      by (simp add: honoAdapter_threw [where middleware = middleware and req = req, OF threw] callNext_def runEvaluation_kept(1) [OF threw])
  qed
  show "finished (res (honoAdapter strict middleware now req w)) = finished (res w)"
  proof (cases strict "middleware req" "([] :: string obj, w)" rule: runEvaluation_cases)
    case (returned result hs w1)
    then show ?thesis
      using m by (simp add: honoAdapter_returned [where middleware = middleware and req = req, OF returned] callNext_def runEvaluation_kept(3) [OF returned])
  next
    case (threw e hs w1)
    then show ?thesis
      by (simp add: honoAdapter_threw [where middleware = middleware and req = req, OF threw] callNext_def runEvaluation_kept(3) [OF threw])
  qed
  show "sentBody (res (honoAdapter strict middleware now req w)) = sentBody (res w)"
  proof (cases strict "middleware req" "([] :: string obj, w)" rule: runEvaluation_cases)
    case (returned result hs w1)
    then show ?thesis
      using m by (simp add: honoAdapter_returned [where middleware = middleware and req = req, OF returned] callNext_def runEvaluation_kept(4) [OF returned])
  next
    case (threw e hs w1)
    then show ?thesis
      by (simp add: honoAdapter_threw [where middleware = middleware and req = req, OF threw] callNext_def runEvaluation_kept(4) [OF threw])
  qed
next
  assume a: "reqMethod req \<noteq> ''OPTIONS'' \<and>
    (\<exists>r hs w1. runEvaluation strict (middleware req) ([], w) = (Returned r, hs, w1))"
  then obtain r hs w1 where ev: "runEvaluation strict (middleware req) ([], w) = (Returned r, hs, w1)"
    by blast
  show "nextCalls (honoAdapter strict middleware now req w) = nextCalls w @ [None]"
    using a by (simp add: honoAdapter_returned [where middleware = middleware and req = req, OF ev] callNext_def runEvaluation_kept(1) [OF ev])
qed

theorem honoAdapter_preflight_witness:
  "statusCode (res (honoAdapter True corsEvaluator 1000 (exampleRequest ''OPTIONS'' []) freshWorld)) = 204 \<and>
   finished (res (honoAdapter True corsEvaluator 1000 (exampleRequest ''OPTIONS'' []) freshWorld)) \<and>
   sentBody (res (honoAdapter True corsEvaluator 1000 (exampleRequest ''OPTIONS'' []) freshWorld)) = None \<and>
   nextCalls (honoAdapter True corsEvaluator 1000 (exampleRequest ''OPTIONS'' []) freshWorld) = [] \<and>
   nextCalls (honoAdapter True corsEvaluator 1000 (exampleRequest ''GET'' []) freshWorld) = [None]"
proof -
  let ?o = "exampleRequest ''OPTIONS'' []" and ?g = "exampleRequest ''GET'' []"
  have mo: "reqMethod ?o = ''OPTIONS''" and mg: "reqMethod ?g \<noteq> ''OPTIONS''"
    by (simp_all add: exampleRequest_def)
  have eo: "\<exists>r hs w1. runEvaluation True (corsEvaluator ?o) ([], freshWorld) = (Returned (Some r), hs, w1)"
    by (simp add: corsEvaluator_def exampleRequest_def)
  have eg: "\<exists>r hs w1. runEvaluation True (corsEvaluator ?g) ([], freshWorld) = (Returned r, hs, w1)"
    by (simp add: corsEvaluator_def exampleRequest_def)
  have fresh: "sentBody (res freshWorld) = None" "nextCalls freshWorld = []"
    by (simp_all add: freshWorld_def)
  from honoAdapter_preflight [where req = ?o and strict = True and middleware = corsEvaluator
      and w = freshWorld and now = 1000] mo eo fresh
  have "statusCode (res (honoAdapter True corsEvaluator 1000 ?o freshWorld)) = 204 \<and>
        finished (res (honoAdapter True corsEvaluator 1000 ?o freshWorld)) \<and>
        sentBody (res (honoAdapter True corsEvaluator 1000 ?o freshWorld)) = None \<and>
        nextCalls (honoAdapter True corsEvaluator 1000 ?o freshWorld) = []"
    by simp
  moreover
  from honoAdapter_preflight [where req = ?g and strict = True and middleware = corsEvaluator
      and w = freshWorld and now = 1000] mg eg fresh
  have "nextCalls (honoAdapter True corsEvaluator 1000 ?g freshWorld) = [None]"
    by simp
  ultimately show ?thesis by simp
qed

text \<open>
  C9. When the evaluator throws, the adapter calls \<^verbatim>\<open>next\<close> once with exactly the thrown
  error, and does nothing else: it does not end the response, writes no body and logs
  nothing.
\<close>

theorem honoAdapter_forwards_exception:
  assumes "runEvaluation strict (middleware req) ([], w) = (Threw e, hs, w1)"
  shows "honoAdapter strict middleware now req w = w1\<lparr>nextCalls := nextCalls w @ [Some e]\<rparr> \<and>
         finished (res (honoAdapter strict middleware now req w)) = finished (res w) \<and>
         sentBody (res (honoAdapter strict middleware now req w)) = sentBody (res w) \<and>
         logged (honoAdapter strict middleware now req w) = logged w"
  by (simp add: honoAdapter_threw [where middleware = middleware and req = req, OF assms] callNext_def runEvaluation_kept [OF assms])

theorem honoAdapter_forwards_exception_witness:
  "nextCalls (honoAdapter True (throwingEvaluator (exampleFailure (Some 403) (Some ''Forbidden'')))
      1000 (exampleRequest ''GET'' []) freshWorld)
     = [Some (Thrown (exampleFailure (Some 403) (Some ''Forbidden'')))] \<and>
   finished (res (honoAdapter True (throwingEvaluator (exampleFailure (Some 403) (Some ''Forbidden'')))
      1000 (exampleRequest ''GET'' []) freshWorld)) = False"
proof -
  let ?e = "exampleFailure (Some 403) (Some ''Forbidden'')" and ?g = "exampleRequest ''GET'' []"
  let ?w1 = "freshWorld\<lparr>res := (res freshWorld)\<lparr>resHeaders := [(''vary'', Str ''Origin'')]\<rparr>\<rparr>"
  have low: "toLowerCase ''Vary'' = ''vary''"
    by (simp add: toLowerCase_def lowerChar_def)
  have ev: "runEvaluation True (throwingEvaluator ?e ?g) ([], freshWorld) = (Threw (Thrown ?e), [], ?w1)"
    by (simp add: throwingEvaluator_def setHeader_def freshWorld_def low)
  from honoAdapter_forwards_exception [where middleware = "throwingEvaluator ?e" and req = ?g, OF ev, of 1000]
  show ?thesis
    by (simp add: freshWorld_def)
qed



section \<open>Claims about the error responder\<close>

text \<open>
  C6, as stated: the response status is the failure's status hint when present, and the
  message of the envelope is the failure's message when present. A hint of 0 and an empty
  message are present and falsy: \<^verbatim>\<open>||\<close> passes over them.
\<close>

theorem errorHandler_falsy_hints_counterexample:
  "err_status (exampleFailure (Some 0) (Some '''')) = Some 0 \<and>
   err_message (exampleFailure (Some 0) (Some '''')) = Some '''' \<and>
   statusCode (res (snd (errorHandler (exampleJson 1000) True True ''2026-01-01T00:00:00.000Z''
      (exampleFailure (Some 0) (Some '''')) (exampleRequest ''GET'' []) freshWorld))) = 500 \<and>
   sentBody (res (snd (errorHandler (exampleJson 1000) True True ''2026-01-01T00:00:00.000Z''
      (exampleFailure (Some 0) (Some '''')) (exampleRequest ''GET'' []) freshWorld))) =
     Some (Json \<lparr>error = \<lparr>code = 500, message = ''Internal Server Error'', details = None\<rparr>,
                 success = False, timestamp = ''2026-01-01T00:00:00.000Z'', envPath = ''/api''\<rparr>)"
proof -
  let ?err = "exampleFailure (Some 0) (Some '''')"
  have sc: "500 = orNum (err_status ?err) (orNum (err_statusCode ?err) 500)"
    by (simp add: exampleFailure_def orNum_def)
  have ok: "\<not> True \<or> (100 \<le> (500 :: int) \<and> (500 :: int) \<le> 999)"
    by simp
  show ?thesis
    by (simp add: errorHandler_accepted [OF ok sc] exampleJson_fresh)
      (simp add: exampleFailure_def exampleRequest_def orStr_def)
qed

text \<open>
  C6, amended: for every failure object passed to it, \<open>errorHandler\<close> sets the status of the
  response (\<^verbatim>\<open>res.status\<close>) to the failure's \<^verbatim>\<open>status\<close> when that is present and not 0,
  else to its \<^verbatim>\<open>statusCode\<close> when that is present and not 0, else to 500, and, when
  \<^verbatim>\<open>res.status\<close> accepts that code, hands to \<^verbatim>\<open>res.json\<close> the envelope with \<^verbatim>\<open>error.code\<close>
  equal to that status, \<^verbatim>\<open>error.message\<close> equal to the failure's message when that is
  present and not empty and to \<open>Internal Server Error\<close> otherwise, \<^verbatim>\<open>success\<close> false, the
  timestamp and the path of the request. What the client receives is what \<^verbatim>\<open>res.json\<close>
  makes of that envelope.
\<close>

theorem errorHandler_envelope:
  assumes "sc = (if err_status err \<noteq> None \<and> err_status err \<noteq> Some 0 then the (err_status err)
                 else if err_statusCode err \<noteq> None \<and> err_statusCode err \<noteq> Some 0
                      then the (err_statusCode err)
                      else 500)"
    and "m = (if err_message err \<noteq> None \<and> err_message err \<noteq> Some ''''
              then the (err_message err)
              else ''Internal Server Error'')"
    and "strict \<longrightarrow> 100 \<le> sc \<and> sc \<le> 999"
  shows "errorHandler json strict IS_PRODUCTION ts err req w =
           json \<lparr>error = \<lparr>code = sc, message = m,
                             details = (if IS_PRODUCTION then None
                                        else Some \<lparr>name = err_name err, stack = err_stack err\<rparr>)\<rparr>,
                 success = False, timestamp = ts, envPath = path req\<rparr>
             (beforeJson sc err req w) \<and>
         statusCode (res (beforeJson sc err req w)) = sc \<and>
         sentBody (res (beforeJson sc err req w)) = sentBody (res w) \<and>
         finished (res (beforeJson sc err req w)) = finished (res w)"
proof -
  have sc: "sc = orNum (err_status err) (orNum (err_statusCode err) 500)"
    unfolding assms(1) by (rule orNum_hints [symmetric])
  have m: "orStr (err_message err) ''Internal Server Error'' = m"
    unfolding assms(2) by (rule orStr_message)
  have ok: "\<not> strict \<or> (100 \<le> sc \<and> sc \<le> 999)"
    using assms(3) by blast
  have "errorHandler json strict IS_PRODUCTION ts err req w =
           json \<lparr>error = \<lparr>code = sc, message = m,
                             details = (if IS_PRODUCTION then None
                                        else Some \<lparr>name = err_name err, stack = err_stack err\<rparr>)\<rparr>,
                 success = False, timestamp = ts, envPath = path req\<rparr>
             (beforeJson sc err req w)"
    using errorHandler_accepted [OF ok sc] by (simp only: m)
  then show ?thesis
    by (simp add: beforeJson_def)
qed

theorem errorHandler_envelope_witness:
  "errorHandler (exampleJson 1000) True True ''2026-01-01T00:00:00.000Z''
      (exampleFailure (Some 404) (Some ''Not Found'')) (exampleRequest ''GET'' []) freshWorld =
     (None,
      (beforeJson 404 (exampleFailure (Some 404) (Some ''Not Found'')) (exampleRequest ''GET'' [])
         freshWorld)
        \<lparr>res := (res freshWorld)
           \<lparr>statusCode := 404, finished := True,
            sentBody :=
              Some (Json \<lparr>error = \<lparr>code = 404, message = ''Not Found'', details = None\<rparr>,
                          success = False, timestamp = ''2026-01-01T00:00:00.000Z'',
                          envPath = ''/api''\<rparr>)\<rparr>\<rparr>)"
proof -
  let ?err = "exampleFailure (Some 404) (Some ''Not Found'')"
  have sc: "404 = (if err_status ?err \<noteq> None \<and> err_status ?err \<noteq> Some 0 then the (err_status ?err)
                 else if err_statusCode ?err \<noteq> None \<and> err_statusCode ?err \<noteq> Some 0
                      then the (err_statusCode ?err)
                      else 500)"
    by (simp add: exampleFailure_def)
  have m: "''Not Found'' = (if err_message ?err \<noteq> None \<and> err_message ?err \<noteq> Some ''''
              then the (err_message ?err)
              else ''Internal Server Error'')"
    by (simp add: exampleFailure_def)
  have ok: "True \<longrightarrow> 100 \<le> (404 :: int) \<and> (404 :: int) \<le> 999"
    by simp
  have p: "path (exampleRequest ''GET'' []) = ''/api''"
    by (simp add: exampleRequest_def)
  from errorHandler_envelope [OF sc m ok, where json = "exampleJson 1000" and IS_PRODUCTION = True
      and ts = "''2026-01-01T00:00:00.000Z''" and req = "exampleRequest ''GET'' []" and w = freshWorld]
  show ?thesis
    by (simp add: exampleJson_fresh p)
qed

text \<open>
  C7. The envelope that \<open>errorHandler\<close> hands to \<^verbatim>\<open>res.json\<close> has no \<^verbatim>\<open>details\<close> field when
  \<^verbatim>\<open>SERVER.IS_PRODUCTION\<close> is set, and holds the name and the stack of the failure in
  \<^verbatim>\<open>error.details\<close> when it is not set. The handler gives the response nothing else: when
  \<^verbatim>\<open>res.status\<close> refuses the status, \<^verbatim>\<open>res.json\<close> is not called and the response is left
  as it was.
\<close>

theorem errorHandler_details:
  assumes "sc = orNum (err_status err) (orNum (err_statusCode err) 500)"
  shows "\<exists>env.
      details (error env) =
        (if IS_PRODUCTION then None
         else Some \<lparr>name = err_name err, stack = err_stack err\<rparr>) \<and>
      code (error env) = sc \<and>
      message (error env) = orStr (err_message err) ''Internal Server Error'' \<and>
      success env = False \<and> timestamp env = ts \<and> envPath env = path req \<and>
      errorHandler json strict IS_PRODUCTION ts err req w =
        (if strict \<and> (sc < 100 \<or> 999 < sc)
         then (Some ERR_INVALID_STATUS_CODE, afterLog err req w)
         else json env (beforeJson sc err req w)) \<and>
      res (afterLog err req w) = res w"
proof (cases "strict \<and> (sc < 100 \<or> 999 < sc)")
  case True
  let ?env = "\<lparr>error = \<lparr>code = sc,
                       message = orStr (err_message err) ''Internal Server Error'',
                       details = (if IS_PRODUCTION then None
                                  else Some \<lparr>name = err_name err, stack = err_stack err\<rparr>)\<rparr>,
           success = False, timestamp = ts, envPath = path req\<rparr>"
  have "errorHandler json strict IS_PRODUCTION ts err req w =
          (Some ERR_INVALID_STATUS_CODE, afterLog err req w)"
    using True assms by (rule errorHandler_refused)
  moreover have "res (afterLog err req w) = res w"
    by (simp add: afterLog_def emit_def)
  ultimately show ?thesis
    using True by (intro exI [of _ ?env]) auto
next
  case False
  let ?env = "\<lparr>error = \<lparr>code = sc,
                       message = orStr (err_message err) ''Internal Server Error'',
                       details = (if IS_PRODUCTION then None
                                  else Some \<lparr>name = err_name err, stack = err_stack err\<rparr>)\<rparr>,
           success = False, timestamp = ts, envPath = path req\<rparr>"
  from False have ok: "\<not> strict \<or> (100 \<le> sc \<and> sc \<le> 999)"
    by auto
  have "errorHandler json strict IS_PRODUCTION ts err req w = json ?env (beforeJson sc err req w)"
    using ok assms by (rule errorHandler_accepted)
  moreover have "res (afterLog err req w) = res w"
    by (simp add: afterLog_def emit_def)
  ultimately show ?thesis
    using False by (intro exI [of _ ?env]) auto
qed

theorem errorHandler_details_witness:
  "(\<exists>env. sentBody (res (snd (errorHandler (exampleJson 1000) True True ''2026-01-01T00:00:00.000Z''
        (exampleFailure (Some 404) (Some ''Not Found'')) (exampleRequest ''GET'' []) freshWorld)))
        = Some (Json env) \<and> details (error env) = None) \<and>
   (\<exists>env. sentBody (res (snd (errorHandler (exampleJson 1000) True False ''2026-01-01T00:00:00.000Z''
        (exampleFailure (Some 404) (Some ''Not Found'')) (exampleRequest ''GET'' []) freshWorld)))
        = Some (Json env) \<and>
      details (error env) =
        Some \<lparr>name = Some ''Error'', stack = Some ''Error: at handler (app.js:10:5)''\<rparr>)"
proof -
  let ?err = "exampleFailure (Some 404) (Some ''Not Found'')" and ?g = "exampleRequest ''GET'' []"
  let ?ts = "''2026-01-01T00:00:00.000Z''"
  have sc: "404 = orNum (err_status ?err) (orNum (err_statusCode ?err) 500)"
    by (simp add: exampleFailure_def orNum_def)
  have f: "err_name ?err = Some ''Error''" "err_stack ?err = Some ''Error: at handler (app.js:10:5)''"
    by (simp_all add: exampleFailure_def)
  from errorHandler_details [OF sc, where IS_PRODUCTION = True and json = "exampleJson 1000"
      and strict = True and ts = ?ts and req = ?g and w = freshWorld]
  obtain env where "details (error env) = None"
    "errorHandler (exampleJson 1000) True True ?ts ?err ?g freshWorld =
       exampleJson 1000 env (beforeJson 404 ?err ?g freshWorld)"
    by auto
  then have prod: "\<exists>env. sentBody (res (snd (errorHandler (exampleJson 1000) True True ?ts ?err ?g
      freshWorld))) = Some (Json env) \<and> details (error env) = None"
    by (simp add: exampleJson_fresh)
  from errorHandler_details [OF sc, where IS_PRODUCTION = False and json = "exampleJson 1000"
      and strict = True and ts = ?ts and req = ?g and w = freshWorld] f
  obtain env where "details (error env) =
      Some \<lparr>name = Some ''Error'', stack = Some ''Error: at handler (app.js:10:5)''\<rparr>"
    "errorHandler (exampleJson 1000) True False ?ts ?err ?g freshWorld =
       exampleJson 1000 env (beforeJson 404 ?err ?g freshWorld)"
    by auto
  then have "\<exists>env. sentBody (res (snd (errorHandler (exampleJson 1000) True False ?ts ?err ?g
      freshWorld))) = Some (Json env) \<and>
      details (error env) =
        Some \<lparr>name = Some ''Error'', stack = Some ''Error: at handler (app.js:10:5)''\<rparr>"
    by (simp add: exampleJson_fresh)
  with prod show ?thesis by blast
qed

end
